theory Spec2Isabelle
  imports Main
begin

section \<open>SlideData: tile enumeration, dispatch and collection\<close>

text \<open>
  A shallow embedding of \<^verbatim>\<open>pathml/core/slide_data.py\<close>: the methods
  \<^verbatim>\<open>SlideData.generate_tiles\<close>, \<^verbatim>\<open>SlideData.run\<close> and
  \<^verbatim>\<open>SlideData._create_tile_dataset\<close>. Mutation of the aggregate is explicit
  state passing, every \<^verbatim>\<open>raise\<close> and failing \<^verbatim>\<open>assert\<close> is a value of
  type \<open>error\<close>, and the effects on the worker pool (creation, submitted jobs) are
  returned next to the final state.
\<close>

subsection \<open>Errors\<close>

text \<open>
  \<open>AssertionError\<close>: a failing \<^verbatim>\<open>assert\<close> (lines 88, 90 and 168).
  \<open>AlreadyPopulatedError\<close>: the \<^verbatim>\<open>Exception\<close> raised at line 98.
  \<open>TypeError\<close>: \<^verbatim>\<open>len(None)\<close> at line 168.
  \<open>AttributeError\<close>: a method call on \<^verbatim>\<open>None\<close> (line 154 on a headless aggregate).
  \<open>JobFailure\<close>: the exception of a job, raised again by the iteration over the
  completed futures (line 112).
  \<open>IndexError\<close>: a positional lookup outside the container.
\<close>

datatype error =
    AssertionError
  | AlreadyPopulatedError
  | TypeError
  | AttributeError
  | JobFailure
  | IndexError

subsection \<open>Arrays, masks, labels, tiles\<close>

text \<open>
  A two-dimensional array with its shape, cells in row-major order (the first two axes
  of an image; every further axis is part of the cell).
\<close>

record 'a array2 =
  nrows :: nat
  ncols :: nat
  cells :: "'a list"

definition shape :: "'a array2 \<Rightarrow> nat \<times> nat" where
  "shape a = (nrows a, ncols a)"

definition at :: "'a array2 \<Rightarrow> nat \<Rightarrow> nat \<Rightarrow> 'a" where
  "at a r c = cells a ! (r * ncols a + c)"

text \<open>A \<^verbatim>\<open>slice(start, stop)\<close> object with non-negative bounds.\<close>

type_synonym pyslice = "nat \<times> nat"

text \<open>
  Modelled from the spec: the slicing primitive of a mask
  (\<^verbatim>\<open>pathml.core.masks\<close> is not among the sources). For a rectangle
  \<^verbatim>\<open>[r0:r1, c0:c1]\<close> that lies within the extent of the array, the result is
  that exact sub-region: its shape is \<open>(r1 - r0, c1 - c0)\<close> and its cells are the cells
  of the rectangle, row by row. The spec does not say what is returned for a rectangle
  that exceeds the extent of the array; there the result is left unspecified, and no
  property below depends on it.
\<close>

definition array_slice :: "'a array2 \<Rightarrow> pyslice \<times> pyslice \<Rightarrow> 'a array2" where
  "array_slice a sl =
     (let r0 = fst (fst sl); r1 = snd (fst sl); c0 = fst (snd sl); c1 = snd (snd sl)
      in if r0 \<le> r1 \<and> r1 \<le> nrows a \<and> c0 \<le> c1 \<and> c1 \<le> ncols a
         then \<lparr> nrows = r1 - r0, ncols = c1 - c0,
                cells = concat (map (\<lambda>r. map (\<lambda>c. at a r c) [c0..<c1]) [r0..<r1]) \<rparr>
         else undefined)"

text \<open>A \<^verbatim>\<open>Masks\<close> object: {key, mask} pairs in insertion order.\<close>

type_synonym masks = "(string \<times> nat array2) list"

text \<open>
  Modelled from the spec: \<^verbatim>\<open>Masks.slice\<close> (\<^verbatim>\<open>pathml.core.masks\<close> is not
  among the sources) requests the same sub-region from every mask in the mapping and
  produces a new mapping with identical keys.
\<close>

definition masks_slice :: "masks \<Rightarrow> pyslice \<times> pyslice \<Rightarrow> masks" where
  "masks_slice ms sl = map (\<lambda>(key, m). (key, array_slice m sl)) ms"

text \<open>
  A labels dictionary is an object: \<open>obj_id\<close> is its identity, \<open>entries\<close> its
  contents. An assignment \<^verbatim>\<open>x.labels = y.labels\<close> stores the same object, so both
  fields hold the same identity; a copy would be an object of another identity.
\<close>

record pydict =
  obj_id :: nat
  entries :: "(string \<times> string) list"

text \<open>
  A \<^verbatim>\<open>Tile\<close> (the class is in \<^verbatim>\<open>pathml.core.tile\<close>): the fields that
  \<^verbatim>\<open>slide_data.py\<close> reads and writes.
\<close>

record tile =
  t_image :: "nat array2"
  t_masks :: "masks option"
  t_coords :: "(nat \<times> nat) option"
  t_slidetype :: "string option"
  t_labels :: "pydict option"

subsection \<open>The result container\<close>

text \<open>
  Modelled from the spec: the \<^verbatim>\<open>Tiles\<close> container
  (\<^verbatim>\<open>pathml.core.tiles\<close> is not among the sources). Entries are kept in insertion
  order, keyed by the coordinate of the tile, or by a synthetic sequential key when the
  tile has no coordinate. Every added tile gets a slot of its own (section 4.4, step 4):
  an entry is never collapsed into, or overwritten by, another one.
\<close>

datatype tile_key = Coord nat nat | Seq nat

type_synonym tiles = "(tile_key \<times> tile) list"

definition Tiles :: tiles where
  "Tiles = []"

definition tile_key_of :: "tiles \<Rightarrow> tile \<Rightarrow> tile_key" where
  "tile_key_of ts t =
     (case t_coords t of Some (i, j) \<Rightarrow> Coord i j | None \<Rightarrow> Seq (length ts))"

definition tiles_add :: "tiles \<Rightarrow> tile \<Rightarrow> tiles" where
  "tiles_add ts t = ts @ [(tile_key_of ts t, t)]"

definition tiles_len :: "tiles \<Rightarrow> nat" where
  "tiles_len ts = length ts"

definition tiles_keys :: "tiles \<Rightarrow> tile_key list" where
  "tiles_keys ts = map fst ts"


definition tiles_getitem :: "tiles \<Rightarrow> int \<Rightarrow> error + tile" where
  "tiles_getitem ts ix =
     (if 0 \<le> ix \<and> ix < int (length ts) then Inr (snd (ts ! nat ix)) else Inl IndexError)"

subsection \<open>The aggregate\<close>

text \<open>
  The slide backend is an external collaborator: all that the aggregate uses of it is
  \<^verbatim>\<open>generate_tiles(shape, stride, pad, **kwargs)\<close>, the finite sequence of tiles
  it yields for these arguments.
\<close>

type_synonym kwargs = "(string \<times> int) list"

type_synonym slide = "int \<Rightarrow> int option \<Rightarrow> bool \<Rightarrow> kwargs \<Rightarrow> tile list"

text \<open>The \<^verbatim>\<open>TileDataset\<close> of \<^verbatim>\<open>_create_tile_dataset\<close>.\<close>

record tile_dataset =
  ds_tiles :: "tiles option"
  ds_labels :: "pydict option"

text \<open>
  The fields of \<^verbatim>\<open>SlideData\<close>; \<open>sd_class\<close> is \<^verbatim>\<open>type(self)\<close>, the class of
  the aggregate.
\<close>

record slidedata =
  sd_class :: string
  sd_slide :: "slide option"
  sd_slide_backend :: "string option"
  sd_name :: "string option"
  sd_masks :: "masks option"
  sd_tiles :: "tiles option"
  sd_labels :: "pydict option"
  sd_history :: "string option"
  sd_tile_dataset :: "tile_dataset option"

subsection \<open>generate_tiles\<close>

text \<open>
  The body of the loop of \<^verbatim>\<open>generate_tiles\<close> (lines 155 to 182) on one tile of
  the backend: the tile that is yielded, or the error that ends the generator.
\<close>

definition attach_masks :: "slidedata \<Rightarrow> bool \<Rightarrow> tile \<Rightarrow> error + tile" where
  "attach_masks self pad t =
     (case sd_masks self of
        None \<Rightarrow> Inr t
      | Some ms \<Rightarrow>
          (case t_coords t of
             None \<Rightarrow> Inr t
           | Some (i, j) \<Rightarrow>
               if \<not> pad then
                 (let (di, dj) = shape (t_image t) in
                  case t_masks t of
                    None \<Rightarrow> Inl TypeError
                  | Some tm \<Rightarrow>
                      if length tm = 0
                      then Inr (t\<lparr>t_masks := Some (masks_slice ms ((i, i + di), (j, j + dj)))\<rparr>)
                      else Inl AssertionError)
               else Inr t))"

definition attach_labels :: "slidedata \<Rightarrow> tile \<Rightarrow> tile" where
  "attach_labels self t =
     (case sd_labels self of None \<Rightarrow> t | Some l \<Rightarrow> t\<lparr>t_labels := Some l\<rparr>)"

definition attach_slidetype :: "slidedata \<Rightarrow> tile \<Rightarrow> tile" where
  "attach_slidetype self t =
     (case t_slidetype t of None \<Rightarrow> t\<lparr>t_slidetype := Some (sd_class self)\<rparr> | Some _ \<Rightarrow> t)"

definition generate_tiles_step :: "slidedata \<Rightarrow> bool \<Rightarrow> tile \<Rightarrow> error + tile" where
  "generate_tiles_step self pad t =
     (case attach_masks self pad t of
        Inl e \<Rightarrow> Inl e
      | Inr t1 \<Rightarrow> Inr (attach_slidetype self (attach_labels self t1)))"

text \<open>
  The generator runs the body on the tiles of the backend in order, yields each result
  and ends at the first error: the tiles yielded, and the error raised if any.
\<close>

fun yield_tiles :: "slidedata \<Rightarrow> bool \<Rightarrow> tile list \<Rightarrow> tile list \<times> error option" where
  "yield_tiles self pad [] = ([], None)"
| "yield_tiles self pad (t # ts) =
     (case generate_tiles_step self pad t of
        Inl e \<Rightarrow> ([], Some e)
      | Inr t' \<Rightarrow> (case yield_tiles self pad ts of (ys, e) \<Rightarrow> (t' # ys, e)))"

definition generate_tiles ::
  "slidedata \<Rightarrow> int \<Rightarrow> int option \<Rightarrow> bool \<Rightarrow> kwargs \<Rightarrow> tile list \<times> error option" where
  "generate_tiles self shp stride pad kw =
     (case sd_slide self of
        None \<Rightarrow> ([], Some AttributeError)
      | Some backend \<Rightarrow> yield_tiles self pad (backend shp stride pad kw))"

subsection \<open>run\<close>

text \<open>
  The \<^verbatim>\<open>pipeline\<close> argument of \<^verbatim>\<open>run\<close>: a \<^verbatim>\<open>Pipeline\<close>, whose
  \<^verbatim>\<open>apply\<close> returns the processed tile or raises (\<open>None\<close>), or an object of
  another type.
\<close>

datatype pipeline_arg = Pipeline "tile \<Rightarrow> tile option" | NotAPipeline

text \<open>A dask client handle; \<open>None\<close> for the argument \<^verbatim>\<open>client=None\<close>.\<close>

type_synonym client = nat

text \<open>
  A future is the outcome of its job: the processed tile, or \<open>None\<close> when the job raised.
  \<^verbatim>\<open>as_completed\<close> hands the futures over in the order in which the jobs finish:
  \<open>arrival\<close> lists the submission indices in that order.
\<close>

type_synonym future = "tile option"

definition is_schedule :: "nat list \<Rightarrow> nat \<Rightarrow> bool" where
  "is_schedule arrival n = (sort arrival = [0..<n])"

definition as_completed :: "nat list \<Rightarrow> future list \<Rightarrow> future list" where
  "as_completed arrival fs = map (\<lambda>k. fs ! k) arrival"

text \<open>
  The collection loop (lines 112 and 113): each result is added to the container as it
  arrives; the exception of a failed job leaves the loop.
\<close>

fun collect :: "tiles \<Rightarrow> future list \<Rightarrow> tiles \<times> error option" where
  "collect ts [] = (ts, None)"
| "collect ts (f # fs) =
     (case f of
        None \<Rightarrow> (ts, Some JobFailure)
      | Some t \<Rightarrow> collect (tiles_add ts t) fs)"

definition create_tile_dataset :: "slidedata \<Rightarrow> tile_dataset" where
  "create_tile_dataset sd = \<lparr> ds_tiles = sd_tiles sd, ds_labels = sd_labels sd \<rparr>"

definition ds_len :: "tile_dataset \<Rightarrow> error + nat" where
  "ds_len d = (case ds_tiles d of None \<Rightarrow> Inl TypeError | Some ts \<Rightarrow> Inr (tiles_len ts))"

definition ds_getitem :: "tile_dataset \<Rightarrow> int \<Rightarrow> error + (tile \<times> pydict option)" where
  "ds_getitem d ix =
     (case ds_tiles d of
        None \<Rightarrow> Inl TypeError
      | Some ts \<Rightarrow>
          (case tiles_getitem ts ix of
             Inl e \<Rightarrow> Inl e
           | Inr t \<Rightarrow> Inr (t, ds_labels d)))"

text \<open>
  What a call of \<^verbatim>\<open>run\<close> leaves behind: the exception raised (if any), the
  aggregate after the call, the tiles submitted to the pool in submission order, and
  whether a worker pool was created.
\<close>

record run_result =
  raised :: "error option"
  final :: slidedata
  submitted :: "tile list"
  pool_created :: bool

definition run ::
  "slidedata \<Rightarrow> pipeline_arg \<Rightarrow> client option \<Rightarrow> int \<Rightarrow> int option \<Rightarrow> int \<Rightarrow> bool \<Rightarrow> bool
     \<Rightarrow> nat list \<Rightarrow> run_result" where
  "run self pipeline client tile_size tile_stride level tile_pad overwrite_existing_tiles arrival =
     (case pipeline of
        NotAPipeline \<Rightarrow>
          \<lparr> raised = Some AssertionError, final = self, submitted = [], pool_created = False \<rparr>
      | Pipeline apply \<Rightarrow>
          (case sd_slide self of
             None \<Rightarrow>
               \<lparr> raised = Some AssertionError, final = self, submitted = [],
                 pool_created = False \<rparr>
           | Some _ \<Rightarrow>
               if sd_tiles self \<noteq> None \<and> \<not> overwrite_existing_tiles then
                 \<lparr> raised = Some AlreadyPopulatedError, final = self, submitted = [],
                   pool_created = False \<rparr>
               else
                 (let self1 = self\<lparr>sd_tiles := Some Tiles\<rparr>;
                      created = (client = None)
                  in case generate_tiles self1 tile_size tile_stride tile_pad
                            [(''level'', level)] of
                       (yielded, Some e) \<Rightarrow>
                         \<lparr> raised = Some e, final = self1, submitted = yielded,
                           pool_created = created \<rparr>
                     | (yielded, None) \<Rightarrow>
                         (case collect Tiles (as_completed arrival (map apply yielded)) of
                            (ts, Some e) \<Rightarrow>
                              \<lparr> raised = Some e, final = self1\<lparr>sd_tiles := Some ts\<rparr>,
                                submitted = yielded, pool_created = created \<rparr>
                          | (ts, None) \<Rightarrow>
                              (let self2 = self1\<lparr>sd_tiles := Some ts\<rparr>
                               in \<lparr> raised = None,
                                    final = self2\<lparr>sd_tile_dataset :=
                                              Some (create_tile_dataset self2)\<rparr>,
                                    submitted = yielded, pool_created = created \<rparr>)))))"

subsection \<open>Example data\<close>

text \<open>
  A slide of 2 by 4 pixels with one mask and one labels dictionary, whose backend yields
  two tiles of 2 by 2 pixels at the coordinates (0, 0) and (0, 2).
\<close>

definition ex_image :: "nat array2" where
  "ex_image = \<lparr> nrows = 2, ncols = 2, cells = [1, 2, 3, 4] \<rparr>"

definition ex_mask :: "nat array2" where
  "ex_mask = \<lparr> nrows = 2, ncols = 4, cells = [0, 1, 2, 3, 4, 5, 6, 7] \<rparr>"

definition ex_labels :: pydict where
  "ex_labels = \<lparr> obj_id = 7, entries = [(''stain'', ''HE'')] \<rparr>"

definition ex_tile :: "nat \<Rightarrow> nat \<Rightarrow> tile" where
  "ex_tile i j = \<lparr> t_image = ex_image, t_masks = Some [], t_coords = Some (i, j),
                   t_slidetype = None, t_labels = None \<rparr>"

definition ex_slide :: slide where
  "ex_slide shp stride pad kw = [ex_tile 0 0, ex_tile 0 2]"

definition ex_sd :: slidedata where
  "ex_sd = \<lparr> sd_class = ''SlideData'', sd_slide = Some ex_slide, sd_slide_backend = None,
             sd_name = Some ''slide'', sd_masks = Some [(''tumor'', ex_mask)], sd_tiles = None,
             sd_labels = Some ex_labels, sd_history = None, sd_tile_dataset = None \<rparr>"

definition ex_tagged :: slide where
  "ex_tagged shp stride pad kw =
     [ex_tile 0 0, (ex_tile 0 2)\<lparr>t_slidetype := Some ''HESlide''\<rparr>]"

definition ex_masked :: slide where
  "ex_masked shp stride pad kw =
     [ex_tile 0 0, (ex_tile 0 2)\<lparr>t_masks := Some [(''tumor'', ex_image)]\<rparr>]"


definition ex_apply :: "tile \<Rightarrow> tile option" where
  "ex_apply t = (if t_coords t = Some (0, 2) then None else Some t)"

definition ex_nocoords :: slide where
  "ex_nocoords shp stride pad kw = [ex_tile 0 0, (ex_tile 0 2)\<lparr>t_coords := None\<rparr>]"

lemmas ex_defs = ex_image_def ex_mask_def ex_labels_def ex_tile_def ex_slide_def ex_sd_def

lemmas step_defs = generate_tiles_def generate_tiles_step_def attach_masks_def
  attach_labels_def attach_slidetype_def masks_slice_def array_slice_def shape_def at_def

lemmas run_defs = run_def create_tile_dataset_def as_completed_def Tiles_def tiles_add_def
  tile_key_of_def tiles_len_def tiles_keys_def tiles_getitem_def ds_len_def ds_getitem_def

section \<open>Properties of the tile enumerator\<close>

subsection \<open>The loop body and the generator\<close>

lemma attach_masks_frame:
  "attach_masks self pad t = Inr t' \<Longrightarrow>
     t_image t' = t_image t \<and> t_coords t' = t_coords t \<and> t_slidetype t' = t_slidetype t
     \<and> t_labels t' = t_labels t"
  by (auto simp: attach_masks_def split: option.splits if_splits prod.splits)

lemma yield_tiles_length:
  "yield_tiles self pad bs = (ys, e) \<Longrightarrow> length ys \<le> length bs"
  by (induction bs arbitrary: ys e) (auto split: sum.splits prod.splits)

lemma yield_tiles_nth:
  "yield_tiles self pad bs = (ys, e) \<Longrightarrow> k < length ys \<Longrightarrow>
     generate_tiles_step self pad (bs ! k) = Inr (ys ! k)"
proof (induction bs arbitrary: ys e k)
  case Nil
  then show ?case by simp
next
  case (Cons b bs)
  then show ?case
    by (cases k) (auto split: sum.splits prod.splits)
qed

lemma yield_tiles_error:
  "yield_tiles self pad bs = (ys, Some err) \<Longrightarrow>
     length ys < length bs \<and> generate_tiles_step self pad (bs ! length ys) = Inl err"
  by (induction bs arbitrary: ys) (auto split: sum.splits prod.splits)

lemma yield_tiles_complete:
  "yield_tiles self pad bs = (ys, None) \<Longrightarrow> length ys = length bs"
  by (induction bs arbitrary: ys) (auto split: sum.splits prod.splits)

lemma step_slidetype:
  "generate_tiles_step self pad t = Inr t' \<Longrightarrow>
     t_slidetype t' = (case t_slidetype t of None \<Rightarrow> Some (sd_class self) | Some s \<Rightarrow> Some s)"
  by (auto simp: generate_tiles_step_def attach_slidetype_def attach_labels_def
      split: sum.splits option.splits dest!: attach_masks_frame)

lemma step_labels:
  "generate_tiles_step self pad t = Inr t' \<Longrightarrow> sd_labels self = Some l \<Longrightarrow> t_labels t' = Some l"
  by (auto simp: generate_tiles_step_def attach_slidetype_def attach_labels_def
      split: sum.splits option.splits)

lemma step_masks:
  "generate_tiles_step self pad t = Inr t' \<Longrightarrow> attach_masks self pad t = Inr t1 \<Longrightarrow>
     t_masks t' = t_masks t1"
  by (auto simp: generate_tiles_step_def attach_slidetype_def attach_labels_def
      split: option.splits)

lemma step_error_kind:
  "generate_tiles_step self pad t = Inl e \<Longrightarrow> e = AssertionError \<or> e = TypeError"
  by (auto simp: generate_tiles_step_def attach_masks_def
      split: sum.splits option.splits if_splits prod.splits)

subsection \<open>Mask attachment\<close>

text \<open>
  Claim C5. Mask attachment is a no-op whenever \<^verbatim>\<open>pad\<close> is true, or the tile has
  no coordinates, or the aggregate has no masks. For every tile of the backend under one
  of these conditions: the attachment step returns the tile as it is, the loop body
  raises nothing and yields the tile with the masks field that the backend produced, and
  the generator does not end at this tile (an error, if there is one, comes from another
  tile); once yielded, the tile carries the masks field of the backend. When
  \<^verbatim>\<open>pad\<close> is true, or the aggregate has no masks, or no tile has coordinates, the
  generator raises nothing at all and yields every tile of the backend, each with the
  masks field that the backend produced.
\<close>

theorem mask_attachment_noop:
  assumes "sd_slide self = Some backend"
    and "generate_tiles self shp stride pad kw = (ys, e)"
  shows "(\<forall>k < length (backend shp stride pad kw).
            pad \<or> t_coords (backend shp stride pad kw ! k) = None \<or> sd_masks self = None \<longrightarrow>
              attach_masks self pad (backend shp stride pad kw ! k)
                = Inr (backend shp stride pad kw ! k)
            \<and> (\<exists>t'. generate_tiles_step self pad (backend shp stride pad kw ! k) = Inr t'
                    \<and> t_masks t' = t_masks (backend shp stride pad kw ! k))
            \<and> length ys \<noteq> k
            \<and> (k < length ys \<longrightarrow> t_masks (ys ! k) = t_masks (backend shp stride pad kw ! k)))
       \<and> (pad \<or> sd_masks self = None \<or> (\<forall>b \<in> set (backend shp stride pad kw). t_coords b = None)
            \<longrightarrow> e = None \<and> length ys = length (backend shp stride pad kw)
               \<and> map t_masks ys = map t_masks (backend shp stride pad kw))"
proof -
  let ?bs = "backend shp stride pad kw"
  from assms have y: "yield_tiles self pad ?bs = (ys, e)"
    by (simp add: generate_tiles_def)
  have noop: "attach_masks self pad u = Inr u"
    if "pad \<or> t_coords u = None \<or> sd_masks self = None" for u
    using that by (auto simp: attach_masks_def split: option.splits)
  have step: "\<exists>t'. generate_tiles_step self pad u = Inr t' \<and> t_masks t' = t_masks u"
    if "pad \<or> t_coords u = None \<or> sd_masks self = None" for u
    using noop [OF that]
    by (simp add: generate_tiles_step_def attach_slidetype_def attach_labels_def
        split: option.splits)
  have stop: "length ys \<noteq> k" if c: "pad \<or> t_coords (?bs ! k) = None \<or> sd_masks self = None"
    and k: "k < length ?bs" for k
  proof
    assume l: "length ys = k"
    show False
    proof (cases e)
      case None
      with y have "length ys = length ?bs" by (auto dest: yield_tiles_complete)
      with l k show False by simp
    next
      case (Some err)
      with y l have "generate_tiles_step self pad (?bs ! k) = Inl err"
        by (auto dest: yield_tiles_error)
      with step [OF c] show False by auto
    qed
  qed
  have kept: "t_masks (ys ! k) = t_masks (?bs ! k)"
    if c: "pad \<or> t_coords (?bs ! k) = None \<or> sd_masks self = None" and k: "k < length ys" for k
    using yield_tiles_nth [OF y k] noop [OF c] by (auto dest: step_masks)
  have 1: "\<forall>k < length ?bs.
            pad \<or> t_coords (?bs ! k) = None \<or> sd_masks self = None \<longrightarrow>
              attach_masks self pad (?bs ! k) = Inr (?bs ! k)
            \<and> (\<exists>t'. generate_tiles_step self pad (?bs ! k) = Inr t' \<and> t_masks t' = t_masks (?bs ! k))
            \<and> length ys \<noteq> k
            \<and> (k < length ys \<longrightarrow> t_masks (ys ! k) = t_masks (?bs ! k))"
    using noop step stop kept by blast
  have 2: "e = None \<and> length ys = length ?bs \<and> map t_masks ys = map t_masks ?bs"
    if g: "pad \<or> sd_masks self = None \<or> (\<forall>b \<in> set ?bs. t_coords b = None)"
  proof -
    have c: "pad \<or> t_coords (?bs ! k) = None \<or> sd_masks self = None" if "k < length ?bs" for k
      using g that by auto
    have le: "length ys \<le> length ?bs"
      using y by (rule yield_tiles_length)
    have len: "length ys = length ?bs"
    proof (rule ccontr)
      assume "length ys \<noteq> length ?bs"
      with le have "length ys < length ?bs" by simp
      from stop [OF c [OF this] this] show False by simp
    qed
    have "e = None"
    proof (cases e)
      case None
      then show ?thesis .
    next
      case (Some err)
      with y have "length ys < length ?bs" by (auto dest: yield_tiles_error)
      with len show ?thesis by simp
    qed
    moreover have "map t_masks ys = map t_masks ?bs"
      using len by (auto intro!: nth_equalityI kept c)
    ultimately show ?thesis using len by simp
  qed
  from 1 2 show ?thesis by blast
qed

theorem mask_attachment_noop_witness:
  "snd (generate_tiles ex_sd 2 None True []) = None
   \<and> map t_masks (fst (generate_tiles ex_sd 2 None True [])) = [Some [], Some []]
   \<and> length (fst (generate_tiles (ex_sd\<lparr>sd_slide := Some ex_nocoords\<rparr>) 2 None False [])) \<noteq> 1"
proof -
  obtain ys e where g: "generate_tiles ex_sd 2 None True [] = (ys, e)"
    by (cases "generate_tiles ex_sd 2 None True []")
  have s: "sd_slide ex_sd = Some ex_slide" by (simp add: ex_sd_def)
  from mask_attachment_noop [OF s g]
  have "True \<or> sd_masks ex_sd = None \<or> (\<forall>b \<in> set (ex_slide 2 None True []). t_coords b = None)
          \<longrightarrow> e = None \<and> length ys = length (ex_slide 2 None True [])
             \<and> map t_masks ys = map t_masks (ex_slide 2 None True [])"
    by blast
  then have 1: "e = None \<and> map t_masks ys = [Some [], Some []]"
    by (simp add: ex_slide_def ex_tile_def)
  let ?sd = "ex_sd\<lparr>sd_slide := Some ex_nocoords\<rparr>"
  obtain zs e' where g': "generate_tiles ?sd 2 None False [] = (zs, e')"
    by (cases "generate_tiles ?sd 2 None False []")
  have s': "sd_slide ?sd = Some ex_nocoords" by simp
  have k: "1 < length (ex_nocoords 2 None False [])" by (simp add: ex_nocoords_def)
  have c: "False \<or> t_coords (ex_nocoords 2 None False [] ! 1) = None \<or> sd_masks ?sd = None"
    by (simp add: ex_nocoords_def ex_tile_def)
  from mask_attachment_noop [OF s' g'] k c have 2: "length zs \<noteq> 1"
    by blast
  from 1 2 g g' show ?thesis by simp
qed

text \<open>
  Claim C6. When mask attachment would occur (the aggregate has masks, the tile has
  coordinates, \<^verbatim>\<open>pad\<close> is false) on a tile of the backend that already carries a
  non-empty masks mapping, the assertion of line 168 fails: the loop body ends with
  \<open>AssertionError\<close>, so \<^verbatim>\<open>generate_tiles\<close> raises and never yields this tile with
  its masks overwritten; when every earlier tile was yielded, the error raised is this
  assertion.
\<close>

theorem mask_attachment_refuses_overwrite:
  assumes "sd_slide self = Some backend"
    and "sd_masks self = Some ms"
    and "k < length (backend shp stride False kw)"
    and "t_coords (backend shp stride False kw ! k) = Some c"
    and "t_masks (backend shp stride False kw ! k) = Some tm"
    and "tm \<noteq> []"
    and "generate_tiles self shp stride False kw = (ys, e)"
  shows "generate_tiles_step self False (backend shp stride False kw ! k) = Inl AssertionError
         \<and> e \<noteq> None \<and> length ys \<le> k \<and> (length ys = k \<longrightarrow> e = Some AssertionError)"
proof -
  let ?bs = "backend shp stride False kw"
  from assms(1,7) have y: "yield_tiles self False ?bs = (ys, e)"
    by (simp add: generate_tiles_def)
  have st: "generate_tiles_step self False (?bs ! k) = Inl AssertionError"
    using assms(2,4,5,6)
    by (cases c) (simp add: generate_tiles_step_def attach_masks_def split: prod.splits)
  have le: "length ys \<le> k"
  proof (rule ccontr)
    assume "\<not> length ys \<le> k"
    then have "k < length ys" by simp
    from yield_tiles_nth [OF y this] st show False by simp
  qed
  have ne: "e \<noteq> None"
  proof
    assume "e = None"
    with y have "length ys = length ?bs" by (auto dest: yield_tiles_complete)
    with le assms(3) show False by simp
  qed
  have "e = Some AssertionError" if "length ys = k"
  proof -
    from ne obtain err where e: "e = Some err" by auto
    with y have "generate_tiles_step self False (?bs ! length ys) = Inl err"
      by (auto dest: yield_tiles_error)
    with that st e show ?thesis by simp
  qed
  with st le ne show ?thesis by blast
qed

theorem mask_attachment_refuses_overwrite_witness:
  "generate_tiles (ex_sd\<lparr>sd_slide := Some ex_masked\<rparr>) 2 None False [] =
     ([(ex_tile 0 0)\<lparr>t_masks := Some [(''tumor'', \<lparr>nrows = 2, ncols = 2, cells = [0, 1, 4, 5]\<rparr>)],
                     t_labels := Some ex_labels, t_slidetype := Some ''SlideData''\<rparr>],
      Some AssertionError)"
proof -
  let ?sd = "ex_sd\<lparr>sd_slide := Some ex_masked\<rparr>"
  obtain ys e where g: "generate_tiles ?sd 2 None False [] = (ys, e)"
    by (cases "generate_tiles ?sd 2 None False []")
  have s: "sd_slide ?sd = Some ex_masked" by simp
  have m: "sd_masks ?sd = Some [(''tumor'', ex_mask)]" by (simp add: ex_sd_def)
  have k: "1 < length (ex_masked 2 None False [])" by (simp add: ex_masked_def)
  have c: "t_coords (ex_masked 2 None False [] ! 1) = Some (0, 2)"
    by (simp add: ex_masked_def ex_tile_def)
  have t: "t_masks (ex_masked 2 None False [] ! 1) = Some [(''tumor'', ex_image)]"
    by (simp add: ex_masked_def ex_tile_def)
  have n: "[(''tumor'', ex_image)] \<noteq> []" by simp
  have "e \<noteq> None \<and> length ys \<le> 1"
    using mask_attachment_refuses_overwrite [OF s m k c t n g] by simp
  then show ?thesis
    using g by (auto simp: step_defs ex_defs ex_masked_def numeral_2_eq_2 split: if_splits)
qed

subsection \<open>Labels and provenance\<close>

text \<open>
  Claim C7. When the aggregate has a labels mapping, every tile yielded by
  \<^verbatim>\<open>generate_tiles\<close> has its labels field set to that same slide-level labels
  object: the field equals the field of the aggregate, and holds the identity of the
  aggregate's dictionary, the same for all tiles.
\<close>

theorem labels_shared_by_all_tiles:
  assumes "sd_labels self = Some l"
    and "generate_tiles self shp stride pad kw = (ys, e)"
    and "t \<in> set ys"
  shows "t_labels t = sd_labels self \<and> map_option obj_id (t_labels t) = Some (obj_id l)"
proof -
  from assms(3) obtain k where k: "k < length ys" "ys ! k = t"
    by (auto simp: in_set_conv_nth)
  from assms(2) k(1) obtain backend where b: "sd_slide self = Some backend"
    by (cases "sd_slide self") (auto simp: generate_tiles_def)
  with assms(2) have "yield_tiles self pad (backend shp stride pad kw) = (ys, e)"
    by (simp add: generate_tiles_def)
  from yield_tiles_nth [OF this k(1)] assms(1) k(2) have "t_labels t = Some l"
    by (auto dest: step_labels)
  with assms(1) show ?thesis by simp
qed

theorem labels_shared_by_all_tiles_witness:
  "t_labels (fst (generate_tiles ex_sd 2 None False []) ! 1) = Some ex_labels
   \<and> map_option obj_id (t_labels (fst (generate_tiles ex_sd 2 None False []) ! 1)) = Some 7"
proof -
  obtain ys e where g: "generate_tiles ex_sd 2 None False [] = (ys, e)"
    by (cases "generate_tiles ex_sd 2 None False []")
  have l: "sd_labels ex_sd = Some ex_labels" by (simp add: ex_sd_def)
  have "length ys = 2"
    using g by (auto simp: step_defs ex_defs)
  then have m: "ys ! 1 \<in> set ys" by simp
  show ?thesis
    using labels_shared_by_all_tiles [OF l g m] g l by (simp add: ex_labels_def)
qed

text \<open>
  Claim C10. \<^verbatim>\<open>generate_tiles\<close> sets the provenance tag of a tile to the type of the
  aggregate only when the tag of the tile is \<^verbatim>\<open>None\<close>; a tile that the backend
  yields with a tag keeps it.
\<close>

theorem slidetype_set_only_when_none:
  assumes "sd_slide self = Some backend"
    and "generate_tiles self shp stride pad kw = (ys, e)"
    and "k < length ys"
  shows "t_slidetype (ys ! k) =
           (case t_slidetype (backend shp stride pad kw ! k) of
              None \<Rightarrow> Some (sd_class self)
            | Some s \<Rightarrow> Some s)"
proof -
  from assms(1,2) have "yield_tiles self pad (backend shp stride pad kw) = (ys, e)"
    by (simp add: generate_tiles_def)
  from yield_tiles_nth [OF this assms(3)] show ?thesis
    by (rule step_slidetype)
qed

theorem slidetype_set_only_when_none_witness:
  "t_slidetype (fst (generate_tiles (ex_sd\<lparr>sd_slide := Some ex_tagged\<rparr>) 2 None False []) ! 0)
     = Some ''SlideData'' \<and>
   t_slidetype (fst (generate_tiles (ex_sd\<lparr>sd_slide := Some ex_tagged\<rparr>) 2 None False []) ! 1)
     = Some ''HESlide''"
proof -
  let ?sd = "ex_sd\<lparr>sd_slide := Some ex_tagged\<rparr>"
  obtain ys e where g: "generate_tiles ?sd 2 None False [] = (ys, e)"
    by (cases "generate_tiles ?sd 2 None False []")
  have s: "sd_slide ?sd = Some ex_tagged" by simp
  have len: "length ys = 2"
    using g by (auto simp: step_defs ex_defs ex_tagged_def)
  have k0: "0 < length ys" and k1: "1 < length ys" using len by simp_all
  show ?thesis
    using slidetype_set_only_when_none [OF s g k0] slidetype_set_only_when_none [OF s g k1] g
    by (simp add: ex_tagged_def ex_defs)
qed

section \<open>Properties of run\<close>

text \<open>
  Claim C9. \<^verbatim>\<open>run\<close> on a headless aggregate (\<^verbatim>\<open>slide\<close> is \<^verbatim>\<open>None\<close>)
  fails with an assertion error before any mutation: every field of the aggregate is as
  it was, no worker pool is created and no job is submitted.
\<close>

theorem run_headless_fails_unchanged:
  "sd_slide self = None \<Longrightarrow>
     run self pipeline client tile_size tile_stride level tile_pad overwrite arrival =
       \<lparr> raised = Some AssertionError, final = self, submitted = [], pool_created = False \<rparr>"
  by (simp add: run_def split: pipeline_arg.splits)

theorem run_headless_fails_unchanged_witness:
  "sd_slide (ex_sd\<lparr>sd_slide := None\<rparr>) = None \<and>
   run (ex_sd\<lparr>sd_slide := None\<rparr>) (Pipeline Some) None 2 None 0 False True [1, 0] =
     \<lparr> raised = Some AssertionError, final = ex_sd\<lparr>sd_slide := None\<rparr>, submitted = [],
       pool_created = False \<rparr>"
  using run_headless_fails_unchanged [of "ex_sd\<lparr>sd_slide := None\<rparr>" "Pipeline Some" None 2 None 0 False True "[1, 0]"]
  by simp

subsection \<open>The collection loop\<close>

lemma generate_tiles_ignores_tiles:
  "generate_tiles (self\<lparr>sd_tiles := x\<rparr>) shp stride pad kw = generate_tiles self shp stride pad kw"
proof -
  have m: "attach_masks (self\<lparr>sd_tiles := x\<rparr>) pad t = attach_masks self pad t" for t
    by (simp add: attach_masks_def split: option.splits)
  have l: "attach_labels (self\<lparr>sd_tiles := x\<rparr>) t = attach_labels self t" for t
    by (simp add: attach_labels_def split: option.splits)
  have c: "attach_slidetype (self\<lparr>sd_tiles := x\<rparr>) t = attach_slidetype self t" for t
    by (simp add: attach_slidetype_def split: option.splits)
  have s: "generate_tiles_step (self\<lparr>sd_tiles := x\<rparr>) pad t = generate_tiles_step self pad t" for t
    by (simp add: generate_tiles_step_def m l c split: sum.splits)
  have "yield_tiles (self\<lparr>sd_tiles := x\<rparr>) pad bs = yield_tiles self pad bs" for bs
    by (induction bs) (simp_all add: s split: sum.splits)
  then show ?thesis by (simp add: generate_tiles_def split: option.splits)
qed

lemma generate_tiles_error_kind:
  "generate_tiles self shp stride pad kw = (ys, Some e) \<Longrightarrow>
     e = AssertionError \<or> e = TypeError \<or> e = AttributeError"
  by (auto simp: generate_tiles_def split: option.splits
      dest!: yield_tiles_error step_error_kind)

lemma collect_eq:
  "collect ts fs =
     (foldl tiles_add ts (map the (takeWhile (\<lambda>f. f \<noteq> None) fs)),
      if None \<in> set fs then Some JobFailure else None)"
  by (induction fs arbitrary: ts) (auto split: option.splits)

lemma map_snd_foldl_tiles_add:
  "map snd (foldl tiles_add ts rs) = map snd ts @ rs"
  by (induction rs arbitrary: ts) (simp_all add: tiles_add_def)

lemma length_foldl_tiles_add:
  "length (foldl tiles_add ts rs) = length ts + length rs"
  by (induction rs arbitrary: ts) (simp_all add: tiles_add_def)

lemma is_schedule_set: "is_schedule arrival n \<Longrightarrow> set arrival = {0..<n}"
  by (metis is_schedule_def set_sort set_upt)


lemma as_completed_schedule:
  assumes "is_schedule arrival (length ys)"
  shows "as_completed arrival (map f ys) = map (\<lambda>k. f (ys ! k)) arrival"
proof -
  have "\<forall>k \<in> set arrival. k < length ys"
    using is_schedule_set [OF assms] by simp
  then show ?thesis by (simp add: as_completed_def)
qed







lemma run_success:
  assumes "raised (run self (Pipeline apply) client tile_size tile_stride level tile_pad ow arrival)
             = None"
  shows "\<exists>ys ts. generate_tiles self tile_size tile_stride tile_pad [(''level'', level)] = (ys, None)
           \<and> collect Tiles (as_completed arrival (map apply ys)) = (ts, None)
           \<and> run self (Pipeline apply) client tile_size tile_stride level tile_pad ow arrival =
               \<lparr> raised = None,
                 final = self\<lparr>sd_tiles := Some ts,
                              sd_tile_dataset := Some \<lparr> ds_tiles = Some ts, ds_labels = sd_labels self \<rparr>\<rparr>,
                 submitted = ys, pool_created = (client = None) \<rparr>"
  using assms
  by (auto simp: run_def Let_def generate_tiles_ignores_tiles create_tile_dataset_def
      split: option.splits if_splits prod.splits)

lemma run_collects:
  assumes "sd_slide self = Some backend"
    and "sd_tiles self = None \<or> ow"
    and "generate_tiles self tile_size tile_stride tile_pad [(''level'', level)] = (ys, None)"
    and "collect Tiles (as_completed arrival (map apply ys)) = (ts, e)"
  shows "raised (run self (Pipeline apply) client tile_size tile_stride level tile_pad ow arrival) = e
       \<and> sd_tiles (final (run self (Pipeline apply) client tile_size tile_stride level tile_pad ow
                            arrival)) = Some ts
       \<and> submitted (run self (Pipeline apply) client tile_size tile_stride level tile_pad ow
                      arrival) = ys
       \<and> (e \<noteq> None \<longrightarrow>
            sd_tile_dataset (final (run self (Pipeline apply) client tile_size tile_stride level
                                      tile_pad ow arrival)) = sd_tile_dataset self)"
  using assms
  by (cases e) (auto simp: run_def Let_def generate_tiles_ignores_tiles)

lemma ex_schedule: "is_schedule [1, 0] 2"
  by (simp add: is_schedule_def upt_rec)




text \<open>
  Claim C4. If the job of a tile raises during collection, the failure leaves
  \<^verbatim>\<open>run\<close> as \<open>JobFailure\<close> (no retry, nothing swallowed, no dataset
  materialised), and the container holds exactly the results collected before the
  failure, in completion order, each of them returned by its positional lookup.
\<close>

theorem job_failure_keeps_collected_results:
  assumes "sd_slide self = Some backend"
    and "sd_tiles self = None \<or> ow"
    and "generate_tiles self tile_size tile_stride tile_pad [(''level'', level)] = (ys, None)"
    and "is_schedule arrival (length ys)"
    and "k < length ys" and "apply (ys ! k) = None"
    and "run self (Pipeline apply) client tile_size tile_stride level tile_pad ow arrival = r"
    and "takeWhile (\<lambda>k. apply (ys ! k) \<noteq> None) arrival = before"
  shows "raised r = Some JobFailure
       \<and> sd_tile_dataset (final r) = sd_tile_dataset self
       \<and> (\<exists>ts. sd_tiles (final r) = Some ts
              \<and> map snd ts = map (\<lambda>k. the (apply (ys ! k))) before
              \<and> (\<forall>q < length before.
                    tiles_getitem ts (int q) = Inr (the (apply (ys ! (before ! q))))))"
proof -
  let ?fs = "map (\<lambda>k. apply (ys ! k)) arrival"
  have ac: "as_completed arrival (map apply ys) = ?fs"
    using assms(4) by (rule as_completed_schedule)
  from assms(5) have "k \<in> set arrival"
    using is_schedule_set [OF assms(4)] by simp
  with assms(6) have bad: "None \<in> set ?fs" by force
  have tw: "takeWhile (\<lambda>f. f \<noteq> None) ?fs = map (\<lambda>k. apply (ys ! k)) before"
    using assms(8) by (simp add: takeWhile_map comp_def)
  let ?ts = "foldl tiles_add [] (map (\<lambda>k. the (apply (ys ! k))) before)"
  have "collect Tiles ?fs = (foldl tiles_add [] (map the (takeWhile (\<lambda>f. f \<noteq> None) ?fs)),
                                Some JobFailure)"
    using bad by (simp only: collect_eq Tiles_def if_True)
  then have c: "collect Tiles (as_completed arrival (map apply ys)) = (?ts, Some JobFailure)"
    by (simp only: tw ac map_map comp_def)
  from run_collects [OF assms(1,2,3) c, of client] assms(7)
  have r: "raised r = Some JobFailure" "sd_tiles (final r) = Some ?ts"
    "sd_tile_dataset (final r) = sd_tile_dataset self"
    by auto
  have m: "map snd ?ts = map (\<lambda>k. the (apply (ys ! k))) before"
    by (simp add: map_snd_foldl_tiles_add)
  have g: "tiles_getitem ?ts (int q) = Inr (the (apply (ys ! (before ! q))))"
    if "q < length before" for q
  proof -
    have "length ?ts = length before" by (simp add: length_foldl_tiles_add)
    moreover have "snd (?ts ! q) = map snd ?ts ! q"
      using that by (simp add: length_foldl_tiles_add)
    ultimately show ?thesis
      using that by (simp add: tiles_getitem_def m)
  qed
  from r m g show ?thesis by blast
qed

theorem job_failure_keeps_collected_results_witness:
  "raised (run ex_sd (Pipeline ex_apply) None 2 None 0 False False [0, 1]) = Some JobFailure
   \<and> map_option tiles_keys
       (sd_tiles (final (run ex_sd (Pipeline ex_apply) None 2 None 0 False False [0, 1])))
       = Some [Coord 0 0]
   \<and> sd_tile_dataset (final (run ex_sd (Pipeline ex_apply) None 2 None 0 False False [0, 1]))
       = None"
proof -
  let ?r = "run ex_sd (Pipeline ex_apply) None 2 None 0 False False [0, 1]"
  obtain ys where ys: "ys = fst (generate_tiles ex_sd 2 None False [(''level'', 0)])"
    by simp
  have g: "generate_tiles ex_sd 2 None False [(''level'', 0)] = (ys, None)"
    unfolding ys by (simp add: step_defs ex_defs)
  have n: "length ys = 2"
    unfolding ys by (simp add: step_defs ex_defs)
  have s: "sd_slide ex_sd = Some ex_slide" by (simp add: ex_sd_def)
  have t: "sd_tiles ex_sd = None \<or> False" by (simp add: ex_sd_def)
  have sch: "is_schedule [0, 1] (length ys)"
    unfolding n by (simp add: is_schedule_def upt_rec)
  have k: "1 < length ys" using n by simp
  have f: "ex_apply (ys ! 1) = None"
    unfolding ys by (simp add: step_defs ex_defs ex_apply_def)
  have b: "takeWhile (\<lambda>k. ex_apply (ys ! k) \<noteq> None) [0, 1] = [0]"
    unfolding ys by (simp add: step_defs ex_defs ex_apply_def)
  from job_failure_keeps_collected_results [OF s t g sch k f refl b]
  have "raised ?r = Some JobFailure" "sd_tile_dataset (final ?r) = sd_tile_dataset ex_sd"
    by blast+
  moreover have "map_option tiles_keys (sd_tiles (final ?r)) = Some [Coord 0 0]"
    by (simp add: run_defs step_defs ex_defs ex_apply_def)
  ultimately show ?thesis by (simp add: ex_sd_def)
qed

subsection \<open>The materialised dataset\<close>

text \<open>
  Claim C8. After a run that ends without an error, \<^verbatim>\<open>tile_dataset\<close> is a view
  whose length is the number of entries of the accumulated container, and whose lookup
  at a position \<open>ix\<close> with \<open>0 \<le> ix < count\<close> returns the pair of the tile at
  that position of the container and the slide-level labels; the tile at position
  \<open>ix\<close> is the result of the job that completed at position \<open>ix\<close> of the
  completion order.
\<close>

theorem tile_dataset_view:
  assumes "run self (Pipeline apply) client tile_size tile_stride level tile_pad ow arrival = r"
    and "raised r = None"
    and "is_schedule arrival (length (submitted r))"
  shows "\<exists>d ts. sd_tile_dataset (final r) = Some d \<and> sd_tiles (final r) = Some ts
           \<and> ds_len d = Inr (tiles_len ts)
           \<and> tiles_len ts = length arrival
           \<and> (\<forall>ix. 0 \<le> ix \<and> ix < int (tiles_len ts) \<longrightarrow>
                 (\<exists>t. tiles_getitem ts ix = Inr t
                    \<and> ds_getitem d ix = Inr (t, sd_labels self)
                    \<and> apply (submitted r ! (arrival ! nat ix)) = Some t))"
proof -
  from assms(1,2) obtain ys ts where
    c: "collect Tiles (as_completed arrival (map apply ys)) = (ts, None)" and
    r: "r = \<lparr> raised = None,
              final = self\<lparr>sd_tiles := Some ts,
                           sd_tile_dataset := Some \<lparr> ds_tiles = Some ts, ds_labels = sd_labels self \<rparr>\<rparr>,
              submitted = ys, pool_created = (client = None) \<rparr>"
    using run_success [of self "apply" client tile_size tile_stride level tile_pad ow arrival]
    by auto
  let ?d = "\<lparr> ds_tiles = Some ts, ds_labels = sd_labels self \<rparr>"
  from r assms(3) have sch: "is_schedule arrival (length ys)" by simp
  let ?fs = "map (\<lambda>k. apply (ys ! k)) arrival"
  have ac: "as_completed arrival (map apply ys) = ?fs"
    using sch by (rule as_completed_schedule)
  from c have none: "None \<notin> set ?fs"
    by (auto simp: collect_eq ac split: if_splits)
  have tw: "takeWhile (\<lambda>f. f \<noteq> None) ?fs = ?fs"
    using none by (intro takeWhile_eq_all_conv [THEN iffD2]) metis
  have "ts = fst (collect Tiles (as_completed arrival (map apply ys)))"
    using c by simp
  also have "\<dots> = foldl tiles_add [] (map the (takeWhile (\<lambda>f. f \<noteq> None) ?fs))"
    by (simp only: collect_eq ac fst_conv Tiles_def)
  also have "\<dots> = foldl tiles_add [] (map the ?fs)"
    by (simp only: tw)
  finally have ts: "ts = foldl tiles_add [] (map the ?fs)" .
  have m: "map snd ts = map (\<lambda>k. the (apply (ys ! k))) arrival"
    by (simp add: ts map_snd_foldl_tiles_add comp_def)
  have l: "length ts = length arrival"
    by (simp add: ts length_foldl_tiles_add)
  have g: "\<exists>t. tiles_getitem ts ix = Inr t \<and> ds_getitem ?d ix = Inr (t, sd_labels self)
               \<and> apply (ys ! (arrival ! nat ix)) = Some t"
    if "0 \<le> ix \<and> ix < int (tiles_len ts)" for ix
  proof -
    from that have q: "nat ix < length arrival" by (auto simp: tiles_len_def l)
    then have "apply (ys ! (arrival ! nat ix)) \<in> set ?fs" by simp
    with none obtain t where t: "apply (ys ! (arrival ! nat ix)) = Some t"
      by (cases "apply (ys ! (arrival ! nat ix))") auto
    have "snd (ts ! nat ix) = map snd ts ! nat ix"
      using q l by simp
    also have "\<dots> = t" using q t by (simp add: m)
    finally have "tiles_getitem ts ix = Inr t"
      using that by (simp add: tiles_getitem_def tiles_len_def)
    with t show ?thesis by (simp add: ds_getitem_def)
  qed
  have "ds_len ?d = Inr (tiles_len ts)" by (simp add: ds_len_def)
  with r g l show ?thesis by (simp add: tiles_len_def)
qed

theorem tile_dataset_view_witness:
  "map_option (\<lambda>d. (ds_len d, map_sum id (\<lambda>p. (t_coords (fst p), snd p)) (ds_getitem d 0)))
     (sd_tile_dataset (final (run ex_sd (Pipeline Some) None 2 None 0 False False [1, 0])))
   = Some (Inr 2, Inr (Some (0, 2), Some ex_labels))"
proof -
  let ?r = "run ex_sd (Pipeline Some) None 2 None 0 False False [1, 0]"
  have a: "raised ?r = None"
    by (simp add: run_defs step_defs ex_defs)
  have n: "length (submitted ?r) = 2"
    by (simp add: run_defs step_defs ex_defs)
  have b: "is_schedule [1, 0] (length (submitted ?r))"
    unfolding n by (rule ex_schedule)
  from tile_dataset_view [OF refl a b]
  obtain d ts where d: "sd_tile_dataset (final ?r) = Some d"
    and l: "ds_len d = Inr (tiles_len ts)" "tiles_len ts = length [1::nat, 0]"
    and g: "\<forall>ix. 0 \<le> ix \<and> ix < int (tiles_len ts) \<longrightarrow>
                 (\<exists>t. tiles_getitem ts ix = Inr t
                    \<and> ds_getitem d ix = Inr (t, sd_labels ex_sd)
                    \<and> Some (submitted ?r ! ([1, 0] ! nat ix)) = Some t)"
    by blast
  from g [rule_format, of 0] l(2)
  have "ds_getitem d 0 = Inr (submitted ?r ! 1, sd_labels ex_sd)" by auto
  moreover have "t_coords (submitted ?r ! 1) = Some (0, 2)"
    by (simp add: run_defs step_defs ex_defs)
  ultimately show ?thesis
    using d l by (simp add: ex_sd_def)
qed

subsection \<open>The guard on existing tiles\<close>

lemma collect_error_kind: "collect ts fs = (ts', Some e) \<Longrightarrow> e = JobFailure"
  by (simp add: collect_eq split: if_splits)

text \<open>
  Claim C1, as amended. On an aggregate with a slide and given a pipeline, \<^verbatim>\<open>run\<close>
  without \<^verbatim>\<open>overwrite_existing_tiles\<close> fails with \<open>AlreadyPopulatedError\<close>
  exactly when the \<^verbatim>\<open>tiles\<close> attribute of the aggregate is set (not
  \<^verbatim>\<open>None\<close>), whether or not the container holds entries; the error is raised
  before any dispatch: the aggregate is as it was, no tile is submitted and no pool is
  created. With \<^verbatim>\<open>overwrite_existing_tiles\<close> the call never fails on that account
  and does what the call on the same aggregate without tiles does: the prior entries are
  discarded before dispatch begins.
\<close>

theorem already_populated_guard:
  assumes "sd_slide self = Some backend"
  shows "(raised (run self (Pipeline apply) client tile_size tile_stride level tile_pad False
                    arrival) = Some AlreadyPopulatedError \<longleftrightarrow> sd_tiles self \<noteq> None)
       \<and> (sd_tiles self \<noteq> None \<longrightarrow>
            run self (Pipeline apply) client tile_size tile_stride level tile_pad False arrival =
              \<lparr> raised = Some AlreadyPopulatedError, final = self, submitted = [],
                pool_created = False \<rparr>)
       \<and> run self (Pipeline apply) client tile_size tile_stride level tile_pad True arrival =
           run (self\<lparr>sd_tiles := None\<rparr>) (Pipeline apply) client tile_size tile_stride level
             tile_pad False arrival
       \<and> raised (run self (Pipeline apply) client tile_size tile_stride level tile_pad True
                   arrival) \<noteq> Some AlreadyPopulatedError"
proof -
  let ?g = "generate_tiles self tile_size tile_stride tile_pad [(''level'', level)]"
  have fresh: "raised (run self (Pipeline apply) client tile_size tile_stride level tile_pad ow
                         arrival) \<noteq> Some AlreadyPopulatedError"
    if "sd_tiles self = None \<or> ow" for ow
  proof (cases ?g)
    case (Pair ys ge)
    show ?thesis
    proof (cases ge)
      case (Some e)
      with Pair have "e \<noteq> AlreadyPopulatedError"
        by (auto dest: generate_tiles_error_kind)
      with Pair Some that assms show ?thesis
        by (auto simp: run_def Let_def generate_tiles_ignores_tiles)
    next
      case None
      obtain ts ce where c: "collect Tiles (as_completed arrival (map apply ys)) = (ts, ce)"
        by (cases "collect Tiles (as_completed arrival (map apply ys))")
      then have "ce \<noteq> Some AlreadyPopulatedError"
        by (auto dest: collect_error_kind)
      moreover from Pair None have "?g = (ys, None)" by simp
      ultimately show ?thesis
        using run_collects [OF assms that _ c, of tile_size tile_stride tile_pad level client]
        by simp
    qed
  qed
  have a: "raised (run self (Pipeline apply) client tile_size tile_stride level tile_pad False
                     arrival) = Some AlreadyPopulatedError \<longleftrightarrow> sd_tiles self \<noteq> None"
    using fresh [of False] assms by (auto simp: run_def)
  have b: "sd_tiles self \<noteq> None \<longrightarrow>
            run self (Pipeline apply) client tile_size tile_stride level tile_pad False arrival =
              \<lparr> raised = Some AlreadyPopulatedError, final = self, submitted = [],
                pool_created = False \<rparr>"
    using assms by (auto simp: run_def)
  have c: "run self (Pipeline apply) client tile_size tile_stride level tile_pad True arrival =
           run (self\<lparr>sd_tiles := None\<rparr>) (Pipeline apply) client tile_size tile_stride level
             tile_pad False arrival"
    using assms by (simp add: run_def)
  from a b c fresh [of True] show ?thesis by simp
qed

theorem already_populated_guard_witness:
  "run (ex_sd\<lparr>sd_tiles := Some [(Coord 5 5, ex_tile 5 5)]\<rparr>) (Pipeline Some) None 2 None 0 False
      False [1, 0]
     = \<lparr> raised = Some AlreadyPopulatedError,
         final = ex_sd\<lparr>sd_tiles := Some [(Coord 5 5, ex_tile 5 5)]\<rparr>, submitted = [],
         pool_created = False \<rparr>
   \<and> map_option tiles_keys
       (sd_tiles (final (run (ex_sd\<lparr>sd_tiles := Some [(Coord 5 5, ex_tile 5 5)]\<rparr>)
                           (Pipeline Some) None 2 None 0 False True [1, 0])))
       = Some [Coord 0 2, Coord 0 0]"
proof -
  let ?sd = "ex_sd\<lparr>sd_tiles := Some [(Coord 5 5, ex_tile 5 5)]\<rparr>"
  have s: "sd_slide ?sd = Some ex_slide" by (simp add: ex_sd_def)
  have t: "sd_tiles ?sd \<noteq> None" by simp
  have e: "?sd\<lparr>sd_tiles := None\<rparr> = ex_sd" by (simp add: ex_sd_def)
  from already_populated_guard [OF s, of Some None 2 None 0 False "[1, 0]"] t
  have 1: "run ?sd (Pipeline Some) None 2 None 0 False False [1, 0] =
             \<lparr> raised = Some AlreadyPopulatedError, final = ?sd, submitted = [],
               pool_created = False \<rparr>"
    and 2: "run ?sd (Pipeline Some) None 2 None 0 False True [1, 0] =
            run ex_sd (Pipeline Some) None 2 None 0 False False [1, 0]"
    unfolding e by blast+
  have "map_option tiles_keys
          (sd_tiles (final (run ex_sd (Pipeline Some) None 2 None 0 False False [1, 0])))
        = Some [Coord 0 2, Coord 0 0]"
    by (simp add: run_defs step_defs ex_defs)
  with 1 2 show ?thesis by simp
qed

text \<open>
  The claim as stated ties the error to a non-empty container. It fails on an aggregate
  whose container is set and holds no entry: the call is refused all the same.
\<close>

theorem empty_container_counterexample:
  "raised (run (ex_sd\<lparr>sd_tiles := Some Tiles\<rparr>) (Pipeline Some) None 2 None 0 False False [1, 0])
     = Some AlreadyPopulatedError
   \<and> sd_tiles (ex_sd\<lparr>sd_tiles := Some Tiles\<rparr>) = Some Tiles
   \<and> tiles_len Tiles = 0"
  by (simp add: run_def ex_sd_def Tiles_def tiles_len_def)

section \<open>Mask co-slicing\<close>








end
